theory Spec2Isabelle
  imports Main "HOL-Library.Product_Lexorder"
begin

section \<open>The invitations script: two-day event planning\<close>

text \<open>
  A shallow embedding of \<^verbatim>\<open>snippets/python-invitations/invitations.py\<close>:
  \<^verbatim>\<open>get_valid_dates\<close>, \<^verbatim>\<open>organize_event\<close> and \<^verbatim>\<open>construct\<close>, together with
  the two calls into Python's \<^verbatim>\<open>datetime\<close> library that they make
  (\<^verbatim>\<open>strptime\<close> and \<^verbatim>\<open>strftime\<close> with the format \<^verbatim>\<open>%Y-%m-%d\<close>) and the
  addition of one day to a date.

  Strings are lists of 8-bit characters, read as the code points 0 to 255; among these
  the decimal digits that the regular expression class \<^verbatim>\<open>\d\<close> accepts are exactly
  \<^verbatim>\<open>0\<close> to \<^verbatim>\<open>9\<close>.
\<close>

subsection \<open>Exceptions\<close>

text \<open>
  The exceptions the three functions can raise. \<^verbatim>\<open>strptime\<close> raises a
  \<^verbatim>\<open>ValueError\<close> in three places, with three different messages:
  \<^item> \<^verbatim>\<open>"time data %r does not match format %r"\<close>, which quotes the whole input;
  \<^item> \<^verbatim>\<open>"unconverted data remains: %s"\<close>, which quotes only what follows the match;
  \<^item> the message of the date constructor (\<^verbatim>\<open>"year 0 is out of range"\<close>,
    \<^verbatim>\<open>"day is out of range for month"\<close>), which quotes nothing of the input.
\<close>

datatype py_error =
    ValueError_no_match string
  | ValueError_unconverted string
  | ValueError_out_of_range
  | OverflowError
  | KeyError

fun is_ValueError :: "py_error \<Rightarrow> bool" where
  "is_ValueError (ValueError_no_match s) = True"
| "is_ValueError (ValueError_unconverted s) = True"
| "is_ValueError ValueError_out_of_range = True"
| "is_ValueError OverflowError = False"
| "is_ValueError KeyError = False"

subsection \<open>Calendar dates\<close>

text \<open>
  Every \<^verbatim>\<open>datetime\<close> the script handles comes from \<^verbatim>\<open>strptime\<close> with a format
  without time fields, so its time is midnight and it has no time zone: it is the triple
  (year, month, day). Python compares two of them field by field in that order, which is
  the lexicographic order on the triple.
\<close>

type_synonym date = "nat \<times> nat \<times> nat"

definition is_leap :: "nat \<Rightarrow> bool" where
  "is_leap y = (y mod 4 = 0 \<and> (y mod 100 \<noteq> 0 \<or> y mod 400 = 0))"

definition days_in_month :: "nat \<Rightarrow> nat \<Rightarrow> nat" where
  "days_in_month y m =
     (if m = 2 then (if is_leap y then 29 else 28)
      else if m = 4 \<or> m = 6 \<or> m = 9 \<or> m = 11 then 30 else 31)"

definition MINYEAR :: nat where "MINYEAR = 1"
definition MAXYEAR :: nat where "MAXYEAR = 9999"

text \<open>What the constructor \<^verbatim>\<open>datetime(year, month, day)\<close> accepts.\<close>

definition valid_date :: "date \<Rightarrow> bool" where
  "valid_date dt = (case dt of (y, m, d) \<Rightarrow>
     MINYEAR \<le> y \<and> y \<le> MAXYEAR \<and> 1 \<le> m \<and> m \<le> 12 \<and> 1 \<le> d \<and> d \<le> days_in_month y m)"

text \<open>
  \<^verbatim>\<open>date + datetime.timedelta(days=1)\<close>: the next calendar day; past the last day of
  year 9999 Python raises \<^verbatim>\<open>OverflowError("date value out of range")\<close>.
\<close>

definition add_one_day :: "date \<Rightarrow> py_error + date" where
  "add_one_day dt = (case dt of (y, m, d) \<Rightarrow>
     if d < days_in_month y m then Inr (y, m, d + 1)
     else if m < 12 then Inr (y, m + 1, 1)
     else if y < MAXYEAR then Inr (y + 1, 1, 1)
     else Inl OverflowError)"

subsection \<open>Parsing: \<^verbatim>\<open>strptime(d, '%Y-%m-%d')\<close>\<close>

text \<open>
  \<^verbatim>\<open>strptime\<close> compiles the format into the regular expression
  \<^verbatim>\<open>(?P<Y>\d\d\d\d)-(?P<m>1[0-2]|0[1-9]|[1-9])-(?P<d>3[0-1]|[1-2]\d|0[1-9]|[1-9]| [1-9])\<close>
  and matches it at the start of the input. A matcher returns every way to match a
  prefix, as the matched text with the rest of the input, in the order in which a
  backtracking engine tries them; the head of the list is the match that is found.
\<close>

type_synonym matcher = "string \<Rightarrow> (string \<times> string) list"

definition lit :: "char \<Rightarrow> matcher" where
  "lit c s = (case s of [] \<Rightarrow> [] | x # r \<Rightarrow> if x = c then [([x], r)] else [])"

definition rng :: "char \<Rightarrow> char \<Rightarrow> matcher" where
  "rng lo hi s = (case s of [] \<Rightarrow> []
     | x # r \<Rightarrow> if (of_char lo :: nat) \<le> of_char x \<and> (of_char x :: nat) \<le> of_char hi
                then [([x], r)] else [])"

definition sq :: "matcher \<Rightarrow> matcher \<Rightarrow> matcher" where
  "sq p q s = [(a @ b, r'). (a, r) \<leftarrow> p s, (b, r') \<leftarrow> q r]"

definition alt :: "matcher \<Rightarrow> matcher \<Rightarrow> matcher" where
  "alt p q s = p s @ q s"

definition digit :: matcher where
  "digit = rng CHR ''0'' CHR ''9''"

definition re_Y :: matcher where
  "re_Y = sq digit (sq digit (sq digit digit))"

definition re_m :: matcher where
  "re_m = alt (sq (lit CHR ''1'') (rng CHR ''0'' CHR ''2''))
         (alt (sq (lit CHR ''0'') (rng CHR ''1'' CHR ''9''))
              (rng CHR ''1'' CHR ''9''))"

definition re_d :: matcher where
  "re_d = alt (sq (lit CHR ''3'') (rng CHR ''0'' CHR ''1''))
         (alt (sq (rng CHR ''1'' CHR ''2'') digit)
         (alt (sq (lit CHR ''0'') (rng CHR ''1'' CHR ''9''))
         (alt (rng CHR ''1'' CHR ''9'')
              (sq (lit CHR '' '') (rng CHR ''1'' CHR ''9'')))))"

text \<open>The groups Y, m and d of every match, with the unconverted rest of the input.\<close>

definition format_regex :: "string \<Rightarrow> (string \<times> string \<times> string \<times> string) list" where
  "format_regex s =
     [(Y, m, d, r5). (Y, r1) \<leftarrow> re_Y s, (h1, r2) \<leftarrow> lit CHR ''-'' r1, (m, r3) \<leftarrow> re_m r2,
                     (h2, r4) \<leftarrow> lit CHR ''-'' r3, (d, r5) \<leftarrow> re_d r4]"

text \<open>\<^verbatim>\<open>int(s)\<close> on a group of the match: blanks around the digits are dropped.\<close>

definition digit_val :: "char \<Rightarrow> nat" where
  "digit_val c = of_char c - 48"

definition py_int :: "string \<Rightarrow> nat" where
  "py_int s = foldl (\<lambda>n c. 10 * n + digit_val c) 0 (filter (\<lambda>c. c \<noteq> CHR '' '') s)"

definition strptime :: "string \<Rightarrow> py_error + date" where
  "strptime data_string =
     (case format_regex data_string of
        [] \<Rightarrow> Inl (ValueError_no_match data_string)
      | (Y, m, d, rest) # others \<Rightarrow>
          if rest \<noteq> [] then Inl (ValueError_unconverted rest)
          else let year = py_int Y; month = py_int m; day = py_int d
               in if valid_date (year, month, day) then Inr (year, month, day)
                  else Inl ValueError_out_of_range)"

subsection \<open>Formatting: \<^verbatim>\<open>strftime('%Y-%m-%d')\<close>\<close>

text \<open>
  \<^verbatim>\<open>strftime\<close> hands the format to the C library. \<^verbatim>\<open>%m\<close> and \<^verbatim>\<open>%d\<close> print two
  digits. \<^verbatim>\<open>%Y\<close> prints the year as a decimal number; glibc does not pad it, so that
  CPython on Linux formats the year 999 as \<^verbatim>\<open>999\<close>.
\<close>

definition digit_char :: "nat \<Rightarrow> char" where
  "digit_char n = char_of (48 + n)"

fun dec :: "nat \<Rightarrow> string" where
  "dec n = (if n < 10 then [digit_char n] else dec (n div 10) @ [digit_char (n mod 10)])"

declare dec.simps [simp del]

definition two_digits :: "nat \<Rightarrow> string" where
  "two_digits n = [digit_char (n div 10 mod 10), digit_char (n mod 10)]"

definition strftime :: "date \<Rightarrow> string" where
  "strftime dt = (case dt of (y, m, d) \<Rightarrow> dec y @ ''-'' @ two_digits m @ ''-'' @ two_digits d)"

subsection \<open>\<^verbatim>\<open>get_valid_dates\<close>\<close>

text \<open>
  Line 39, \<^verbatim>\<open>list(map(lambda d: strptime(d, '%Y-%m-%d'), available_dates))\<close>: the
  strings are parsed from left to right and the first failure is raised.
\<close>

fun parse_dates :: "string list \<Rightarrow> py_error + date list" where
  "parse_dates [] = Inr []"
| "parse_dates (s # ss) =
     (case strptime s of
        Inl e \<Rightarrow> Inl e
      | Inr d \<Rightarrow> (case parse_dates ss of Inl e \<Rightarrow> Inl e | Inr ds \<Rightarrow> Inr (d # ds)))"

text \<open>
  Lines 43 to 47, the loop \<^verbatim>\<open>for date in dates[:-1]\<close>: the first argument is the whole
  sorted list \<^verbatim>\<open>dates\<close>, the second what is left of \<^verbatim>\<open>dates[:-1]\<close>, the third
  \<^verbatim>\<open>valid_dates\<close> so far.
\<close>

fun consecutive_loop :: "date list \<Rightarrow> date list \<Rightarrow> date list \<Rightarrow> py_error + date list" where
  "consecutive_loop dates [] valid_dates = Inr valid_dates"
| "consecutive_loop dates (date # rest) valid_dates =
     (case add_one_day date of
        Inl e \<Rightarrow> Inl e
      | Inr next_date \<Rightarrow>
          consecutive_loop dates rest
            (if next_date \<in> set dates then valid_dates @ [date] else valid_dates))"

definition get_valid_dates :: "string list \<Rightarrow> py_error + date list" where
  "get_valid_dates available_dates =
     (case parse_dates available_dates of
        Inl e \<Rightarrow> Inl e
      | Inr ds \<Rightarrow> (let dates = sort ds in consecutive_loop dates (butlast dates) []))"

text \<open>
  The test of lines 45 and 46 read as a predicate on \<^verbatim>\<open>date\<close>: the next day exists
  and is in \<^verbatim>\<open>dates\<close>.
\<close>

definition next_day_in :: "date list \<Rightarrow> date \<Rightarrow> bool" where
  "next_day_in dates d = (case add_one_day d of Inl e \<Rightarrow> False | Inr nd \<Rightarrow> nd \<in> set dates)"

subsection \<open>\<^verbatim>\<open>organize_event\<close>\<close>

record attendee =
  email :: string
  availableDates :: "string list"

text \<open>
  \<^verbatim>\<open>valid_date_mapping\<close> is a Python dictionary, which iterates over its keys in the
  order of their first insertion: an association list with one entry for each key.
\<close>

type_synonym date_mapping = "(date \<times> string list) list"

text \<open>Lines 69 to 72: append to the entry of the date, or make it at the end.\<close>

fun record_date :: "date_mapping \<Rightarrow> date \<Rightarrow> string \<Rightarrow> date_mapping" where
  "record_date [] date e = [(date, [e])]"
| "record_date ((k, es) # m) date e =
     (if k = date then (k, es @ [e]) # m else (k, es) # record_date m date e)"

text \<open>Lines 68 to 72, the loop over one attendee's valid dates.\<close>

fun record_dates :: "date_mapping \<Rightarrow> date list \<Rightarrow> string \<Rightarrow> date_mapping" where
  "record_dates m [] e = m"
| "record_dates m (date # ds) e = record_dates (record_date m date e) ds e"

text \<open>Lines 66 to 72, the loop over the attendees.\<close>

fun aggregate :: "date_mapping \<Rightarrow> attendee list \<Rightarrow> py_error + date_mapping" where
  "aggregate m [] = Inr m"
| "aggregate m (a # as) =
     (case get_valid_dates (availableDates a) of
        Inl e \<Rightarrow> Inl e
      | Inr valid_dates \<Rightarrow> aggregate (record_dates m valid_dates (email a)) as)"

text \<open>
  Lines 75 to 81, the selection loop over the dictionary, with \<^verbatim>\<open>highest\<close> and
  \<^verbatim>\<open>ret\<close> (\<^verbatim>\<open>None\<close> at the start) as its state.
\<close>

fun select_loop :: "date_mapping \<Rightarrow> nat \<Rightarrow> date option \<Rightarrow> date option" where
  "select_loop [] highest ret = ret"
| "select_loop ((date, es) # m) highest ret =
     (if length es > highest then select_loop m (length es) (Some date)
      else select_loop m highest ret)"

text \<open>
  Line 82, \<^verbatim>\<open>valid_date_mapping[ret]\<close>: \<^verbatim>\<open>None\<close> is never a key, and a missing key
  raises \<^verbatim>\<open>KeyError\<close>.
\<close>

definition lookup_ret :: "date_mapping \<Rightarrow> date option \<Rightarrow> py_error + date \<times> string list" where
  "lookup_ret m ret =
     (case ret of
        None \<Rightarrow> Inl KeyError
      | Some date \<Rightarrow> (case map_of m date of None \<Rightarrow> Inl KeyError | Some es \<Rightarrow> Inr (date, es)))"

definition organize_event :: "attendee list \<Rightarrow> py_error + date \<times> string list" where
  "organize_event attendees =
     (case aggregate [] attendees of
        Inl e \<Rightarrow> Inl e
      | Inr valid_date_mapping \<Rightarrow> lookup_ret valid_date_mapping (select_loop valid_date_mapping 0 None))"

subsection \<open>\<^verbatim>\<open>construct\<close>\<close>

record country_record =
  attendeeCount :: nat
  attendees :: "string list"
  name :: string
  startDate :: string

definition construct :: "date \<times> string list \<Rightarrow> string \<Rightarrow> country_record" where
  "construct event country =
     \<lparr> attendeeCount = length (snd event),
       attendees = snd event,
       name = country,
       startDate = strftime (fst event) \<rparr>"

section \<open>Properties\<close>

subsection \<open>Dates\<close>

lemma strptime_valid: "strptime s = Inr d \<Longrightarrow> valid_date d"
  by (auto simp: strptime_def Let_def split: list.splits if_splits)

lemma add_one_day_less: "add_one_day d = Inr nd \<Longrightarrow> d < nd"
  by (auto simp: add_one_day_def split: prod.splits if_splits)

lemma add_one_day_overflow:
  "valid_date d \<Longrightarrow> add_one_day d = Inl e \<Longrightarrow> d = (9999, 12, 31) \<and> e = OverflowError"
  by (auto simp: add_one_day_def valid_date_def MAXYEAR_def days_in_month_def
      split: prod.splits if_splits)

lemma valid_date_le_max: "valid_date d \<Longrightarrow> d \<le> (9999, 12, 31)"
  by (auto simp: valid_date_def MAXYEAR_def days_in_month_def split: prod.splits if_splits)

lemma next_day_in_iff:
  "next_day_in dates d \<longleftrightarrow> (\<exists>nd. add_one_day d = Inr nd \<and> nd \<in> set dates)"
  unfolding next_day_in_def by (cases "add_one_day d") simp_all

subsection \<open>Lists\<close>

lemma in_butlast: "x \<in> set xs \<Longrightarrow> x \<noteq> last xs \<Longrightarrow> x \<in> set (butlast xs)"
  by (induction xs) (auto split: if_splits)

lemma sorted_le_last: "sorted xs \<Longrightarrow> x \<in> set xs \<Longrightarrow> x \<le> last xs"
  by (induction xs) (auto split: if_splits)

lemma distinct_butlast_neq_last: "distinct xs \<Longrightarrow> x \<in> set (butlast xs) \<Longrightarrow> x \<noteq> last xs"
  by (induction xs) (auto split: if_splits dest: in_set_butlastD)

subsection \<open>The scan of \<^verbatim>\<open>get_valid_dates\<close>\<close>

lemma parse_dates_source:
  "parse_dates xs = Inr ds \<Longrightarrow> d \<in> set ds \<Longrightarrow> \<exists>s\<in>set xs. strptime s = Inr d"
  by (induction xs arbitrary: ds) (auto split: sum.splits)

lemma consecutive_loop_Inr:
  "consecutive_loop dates xs acc = Inr out \<Longrightarrow> out = acc @ filter (next_day_in dates) xs"
proof (induction xs arbitrary: acc)
  case Nil
  then show ?case by simp
next
  case (Cons date rest)
  from Cons.prems obtain nd where nd: "add_one_day date = Inr nd"
    by (cases "add_one_day date") simp_all
  let ?acc = "if nd \<in> set dates then acc @ [date] else acc"
  from Cons.prems nd have "consecutive_loop dates rest ?acc = Inr out" by simp
  then have "out = ?acc @ filter (next_day_in dates) rest" by (rule Cons.IH)
  moreover from nd have "next_day_in dates date \<longleftrightarrow> nd \<in> set dates"
    by (simp add: next_day_in_def)
  ultimately show ?case by simp
qed

lemma consecutive_loop_total:
  "\<forall>d\<in>set xs. \<exists>nd. add_one_day d = Inr nd \<Longrightarrow> \<exists>out. consecutive_loop dates xs acc = Inr out"
  by (induction xs arbitrary: acc) (auto split: sum.splits)

lemma get_valid_dates_filter:
  assumes "parse_dates xs = Inr ds" "get_valid_dates xs = Inr out"
  shows "out = filter (next_day_in (sort ds)) (butlast (sort ds))"
  using assms consecutive_loop_Inr [of "sort ds" "butlast (sort ds)" "[]" out]
  by (simp add: get_valid_dates_def Let_def)

lemma get_valid_dates_parsed:
  "get_valid_dates xs = Inr out \<Longrightarrow> \<exists>ds. parse_dates xs = Inr ds"
  by (auto simp: get_valid_dates_def split: sum.splits)

lemma get_valid_dates_set:
  assumes "parse_dates xs = Inr ds" "get_valid_dates xs = Inr out"
  shows "d \<in> set out \<longleftrightarrow> d \<in> set ds \<and> (\<exists>nd. add_one_day d = Inr nd \<and> nd \<in> set ds)"
proof -
  note out = get_valid_dates_filter [OF assms]
  show ?thesis
  proof
    assume "d \<in> set out"
    with out have "d \<in> set (butlast (sort ds))" "next_day_in (sort ds) d" by simp_all
    then show "d \<in> set ds \<and> (\<exists>nd. add_one_day d = Inr nd \<and> nd \<in> set ds)"
      using in_set_butlastD [of d "sort ds"] next_day_in_iff [of "sort ds" d] by simp
  next
    assume r: "d \<in> set ds \<and> (\<exists>nd. add_one_day d = Inr nd \<and> nd \<in> set ds)"
    then obtain nd where nd: "add_one_day d = Inr nd" "nd \<in> set ds" by blast
    have "nd \<le> last (sort ds)" using nd(2) by (simp add: sorted_le_last)
    with add_one_day_less [OF nd(1)] have "d \<noteq> last (sort ds)" by auto
    with r have "d \<in> set (butlast (sort ds))" by (simp add: in_butlast)
    moreover have "next_day_in (sort ds) d"
      using nd next_day_in_iff [of "sort ds" d] by auto
    ultimately show "d \<in> set out" using out by simp
  qed
qed

lemma parse_dates_all_valid:
  "parse_dates xs = Inr ds \<Longrightarrow> d \<in> set ds \<Longrightarrow> valid_date d"
  using parse_dates_source strptime_valid by blast

lemma butlast_sort_has_next:
  assumes valid: "\<forall>d\<in>set ds. valid_date d" and dist: "distinct ds"
    and d: "d \<in> set (butlast (sort ds))"
  shows "\<exists>nd. add_one_day d = Inr nd"
proof (cases "add_one_day d")
  case (Inr nd)
  then show ?thesis by blast
next
  case (Inl e)
  from d have mem: "d \<in> set (sort ds)" by (rule in_set_butlastD)
  then have "valid_date d" using valid by simp
  with Inl have top: "d = (9999, 12, 31)" using add_one_day_overflow by blast
  from mem have ne: "sort ds \<noteq> []" by (metis empty_iff empty_set)
  then have "last (sort ds) \<in> set (sort ds)" by (rule last_in_set)
  then have "last (sort ds) \<le> (9999, 12, 31)" using valid valid_date_le_max by simp
  moreover have "d \<le> last (sort ds)" using mem by (simp add: sorted_le_last)
  moreover have "d \<noteq> last (sort ds)"
    using dist d by (simp add: distinct_butlast_neq_last)
  ultimately show ?thesis using top by simp
qed

lemma get_valid_dates_returns:
  assumes "parse_dates xs = Inr ds" "distinct ds"
  shows "\<exists>out. get_valid_dates xs = Inr out"
proof -
  have "\<forall>d\<in>set ds. valid_date d" using assms(1) parse_dates_all_valid by blast
  then have "\<forall>d\<in>set (butlast (sort ds)). \<exists>nd. add_one_day d = Inr nd"
    using butlast_sort_has_next assms(2) by blast
  then obtain out where "consecutive_loop (sort ds) (butlast (sort ds)) [] = Inr out"
    using consecutive_loop_total by blast
  with assms(1) show ?thesis by (simp add: get_valid_dates_def Let_def)
qed

subsection \<open>The keys of \<^verbatim>\<open>valid_date_mapping\<close>\<close>

lemma record_date_keys: "fst ` set (record_date m d e) = insert d (fst ` set m)"
  by (induction m d e rule: record_date.induct) auto

lemma record_dates_keys: "fst ` set (record_dates m ds e) = set ds \<union> fst ` set m"
  by (induction m ds e rule: record_dates.induct) (auto simp: record_date_keys)

lemma aggregate_keys:
  "aggregate m as = Inr m' \<Longrightarrow> k \<in> fst ` set m' \<Longrightarrow>
   k \<in> fst ` set m \<or>
   (\<exists>a\<in>set as. \<exists>vd. get_valid_dates (availableDates a) = Inr vd \<and> k \<in> set vd)"
proof (induction as arbitrary: m)
  case Nil
  then show ?case by simp
next
  case (Cons a as)
  from Cons.prems(1) obtain vd where vd: "get_valid_dates (availableDates a) = Inr vd"
    by (cases "get_valid_dates (availableDates a)") simp_all
  with Cons.prems(1) have "aggregate (record_dates m vd (email a)) as = Inr m'" by simp
  from Cons.IH [OF this Cons.prems(2)]
  show ?case using vd by (auto simp: record_dates_keys)
qed

lemma select_loop_key:
  "select_loop m highest ret = Some d \<Longrightarrow> ret = Some d \<or> d \<in> fst ` set m"
  by (induction m highest ret rule: select_loop.induct) (auto split: if_splits)

lemma organize_event_key:
  assumes "organize_event invitees = Inr (d, es)"
  shows "\<exists>a\<in>set invitees. \<exists>vd. get_valid_dates (availableDates a) = Inr vd \<and> d \<in> set vd"
proof -
  from assms obtain m where m: "aggregate [] invitees = Inr m"
    by (cases "aggregate [] invitees") (simp_all add: organize_event_def)
  with assms have "lookup_ret m (select_loop m 0 None) = Inr (d, es)"
    by (simp add: organize_event_def)
  then have "select_loop m 0 None = Some d"
    by (auto simp: lookup_ret_def split: option.splits)
  then have "d \<in> fst ` set m" using select_loop_key by fastforce
  with aggregate_keys [OF m] show ?thesis by simp
qed

subsection \<open>Failures of \<^verbatim>\<open>strptime\<close> and how they travel\<close>

lemma strptime_error: "strptime s = Inl e \<Longrightarrow> is_ValueError e"
  by (auto simp: strptime_def Let_def split: list.splits if_splits)

lemma strptime_no_match: "strptime s = Inl (ValueError_no_match t) \<Longrightarrow> t = s"
  by (auto simp: strptime_def Let_def split: list.splits if_splits)

lemma parse_dates_error:
  "s \<in> set xs \<Longrightarrow> strptime s = Inl err \<Longrightarrow>
   \<exists>s'\<in>set xs. \<exists>e. strptime s' = Inl e \<and> parse_dates xs = Inl e"
proof (induction xs)
  case Nil
  then show ?case by simp
next
  case (Cons x xs)
  show ?case
  proof (cases "strptime x")
    case (Inl e)
    then show ?thesis by auto
  next
    case (Inr d)
    with Cons.prems have "s \<in> set xs" by auto
    from Cons.IH [OF this Cons.prems(2)] obtain s' e where
      "s' \<in> set xs" "strptime s' = Inl e" "parse_dates xs = Inl e" by blast
    with Inr show ?thesis by auto
  qed
qed

lemma get_valid_dates_parse_error:
  "parse_dates xs = Inl e \<Longrightarrow> get_valid_dates xs = Inl e"
  by (simp add: get_valid_dates_def)

lemma aggregate_error:
  "a \<in> set as \<Longrightarrow> get_valid_dates (availableDates a) = Inl e \<Longrightarrow>
   \<exists>b\<in>set as. \<exists>e'. get_valid_dates (availableDates b) = Inl e' \<and> aggregate m as = Inl e'"
proof (induction as arbitrary: m)
  case Nil
  then show ?case by simp
next
  case (Cons x as)
  show ?case
  proof (cases "get_valid_dates (availableDates x)")
    case (Inl e')
    then show ?thesis by auto
  next
    case (Inr vd)
    with Cons.prems have "a \<in> set as" by auto
    from Cons.IH [OF this Cons.prems(2), of "record_dates m vd (email x)"] obtain b e' where
      "b \<in> set as" "get_valid_dates (availableDates b) = Inl e'"
      "aggregate (record_dates m vd (email x)) as = Inl e'" by blast
    with Inr show ?thesis by auto
  qed
qed

subsection \<open>The shape of a match\<close>






















subsection \<open>Runs on concrete inputs\<close>

lemmas regex_defs =
  format_regex_def re_Y_def re_m_def re_d_def digit_def sq_def alt_def lit_def rng_def

lemmas date_defs =
  valid_date_def days_in_month_def is_leap_def MINYEAR_def MAXYEAR_def py_int_def digit_val_def

lemmas scan_defs = get_valid_dates_def add_one_day_def days_in_month_def is_leap_def MAXYEAR_def

lemmas event_defs = organize_event_def lookup_ret_def

lemma strptime_may:
  "strptime ''2024-05-01'' = Inr (2024, 5, 1)" "strptime ''2024-05-02'' = Inr (2024, 5, 2)"
  "strptime ''2024-05-03'' = Inr (2024, 5, 3)" "strptime ''2024-05-04'' = Inr (2024, 5, 4)"
  by (simp_all add: strptime_def regex_defs date_defs)

lemma strptime_june:
  "strptime ''2024-06-01'' = Inr (2024, 6, 1)" "strptime ''2024-06-02'' = Inr (2024, 6, 2)"
  "strptime ''2024-06-03'' = Inr (2024, 6, 3)"
  by (simp_all add: strptime_def regex_defs date_defs)

lemma strptime_failures:
  "strptime ''2024-13-40'' = Inl (ValueError_no_match ''2024-13-40'')"
  "strptime ''2024-01-011'' = Inl (ValueError_unconverted ''1'')"
  "strptime ''2024-02-30'' = Inl ValueError_out_of_range"
  by (simp_all add: strptime_def regex_defs date_defs)



lemma get_valid_dates_may:
  "get_valid_dates [''2024-05-01'', ''2024-05-02''] = Inr [(2024, 5, 1)]"
  "get_valid_dates [''2024-05-03'', ''2024-05-04''] = Inr [(2024, 5, 3)]"
  "get_valid_dates [''2024-05-01''] = Inr []"
  by (simp_all add: scan_defs strptime_may)

lemma get_valid_dates_june:
  "get_valid_dates [''2024-06-01'', ''2024-06-02''] = Inr [(2024, 6, 1)]"
  "get_valid_dates [''2024-06-02'', ''2024-06-03''] = Inr [(2024, 6, 2)]"
  "get_valid_dates [''2024-06-01'', ''2024-06-02'', ''2024-06-03'']
     = Inr [(2024, 6, 1), (2024, 6, 2)]"
  "get_valid_dates [''2024-06-02'', ''2024-06-01'', ''2024-06-03'']
     = Inr [(2024, 6, 1), (2024, 6, 2)]"
  by (simp_all add: scan_defs strptime_june)

lemma get_valid_dates_twice:
  "get_valid_dates [''2024-05-01'', ''2024-05-01'', ''2024-05-02'']
     = Inr [(2024, 5, 1), (2024, 5, 1)]"
  by (simp add: scan_defs strptime_may)

lemma get_valid_dates_thrice:
  "get_valid_dates [''2024-05-01'', ''2024-05-01'', ''2024-05-01'', ''2024-05-02'']
     = Inr [(2024, 5, 1), (2024, 5, 1), (2024, 5, 1)]"
  by (simp add: scan_defs strptime_may)

section \<open>The claims\<close>

text \<open>
  C1. With the support \<^verbatim>\<open>{2024-05-03: [c, d], 2024-05-01: [a, b]}\<close>, built in this
  order from the attendees c, d, a, b, the selection returns 2024-05-03 although
  2024-05-01 has as many attendees and is earlier: the loop keeps the first key of the
  dictionary that reaches the highest count, and the dictionary is not sorted.
\<close>

theorem organize_event_tie_first_inserted:
  "aggregate []
     [\<lparr>email = ''c'', availableDates = [''2024-05-03'', ''2024-05-04'']\<rparr>,
      \<lparr>email = ''d'', availableDates = [''2024-05-03'', ''2024-05-04'']\<rparr>,
      \<lparr>email = ''a'', availableDates = [''2024-05-01'', ''2024-05-02'']\<rparr>,
      \<lparr>email = ''b'', availableDates = [''2024-05-01'', ''2024-05-02'']\<rparr>]
     = Inr [((2024, 5, 3), [''c'', ''d'']), ((2024, 5, 1), [''a'', ''b''])]
   \<and> select_loop [((2024, 5, 3), [''c'', ''d'']), ((2024, 5, 1), [''a'', ''b''])] 0 None
     = Some (2024, 5, 3)
   \<and> organize_event
     [\<lparr>email = ''c'', availableDates = [''2024-05-03'', ''2024-05-04'']\<rparr>,
      \<lparr>email = ''d'', availableDates = [''2024-05-03'', ''2024-05-04'']\<rparr>,
      \<lparr>email = ''a'', availableDates = [''2024-05-01'', ''2024-05-02'']\<rparr>,
      \<lparr>email = ''b'', availableDates = [''2024-05-01'', ''2024-05-02'']\<rparr>]
     = Inr ((2024, 5, 3), [''c'', ''d''])"
  by (simp add: event_defs get_valid_dates_may)

text \<open>
  C2. A group without any two-day window makes \<^verbatim>\<open>organize_event\<close> raise
  \<^verbatim>\<open>KeyError\<close>: after the selection loop \<^verbatim>\<open>ret\<close> is still \<^verbatim>\<open>None\<close>, and line 82 looks
  \<^verbatim>\<open>None\<close> up in the empty dictionary. The docstring promises \<^verbatim>\<open>None\<close> as the result.
  Shown for the empty group and for a group whose only attendee is free on a single day.
\<close>

theorem organize_event_no_window_KeyError:
  "organize_event [] = Inl KeyError
   \<and> organize_event [\<lparr>email = ''a'', availableDates = [''2024-05-01'']\<rparr>] = Inl KeyError"
  by (simp add: event_defs get_valid_dates_may)

text \<open>
  C3. Two attendees with one window each, in both orders: the selected start date is
  the window of whoever comes first in the list, so that permuting the attendees
  changes it (the count is 1 both times).
\<close>

theorem organize_event_order_dependent:
  "organize_event
     [\<lparr>email = ''a'', availableDates = [''2024-05-01'', ''2024-05-02'']\<rparr>,
      \<lparr>email = ''c'', availableDates = [''2024-05-03'', ''2024-05-04'']\<rparr>]
     = Inr ((2024, 5, 1), [''a''])
   \<and> organize_event
     [\<lparr>email = ''c'', availableDates = [''2024-05-03'', ''2024-05-04'']\<rparr>,
      \<lparr>email = ''a'', availableDates = [''2024-05-01'', ''2024-05-02'']\<rparr>]
     = Inr ((2024, 5, 3), [''c''])"
  by (simp add: event_defs get_valid_dates_may)

text \<open>
  C4. \<^verbatim>\<open>get_valid_dates\<close> keeps a list, not a set: an attendee who lists 2024-05-01
  twice and 2024-05-02 once gets the start 2024-05-01 twice, and \<^verbatim>\<open>organize_event\<close>
  then records that attendee twice for the date. With a who lists 2024-05-01 three times
  and b and c who are both free on 2024-05-03 and 2024-05-04, the selection returns
  2024-05-01 with a counted three times, a date that one partner can make, over
  2024-05-03, which two partners can make; the docstring of \<^verbatim>\<open>organize_event\<close>
  promises the start date where the most partners make it.
\<close>

theorem get_valid_dates_keeps_duplicates:
  "get_valid_dates [''2024-05-01'', ''2024-05-01'', ''2024-05-02'']
     = Inr [(2024, 5, 1), (2024, 5, 1)]
   \<and> organize_event
        [\<lparr>email = ''a'', availableDates = [''2024-05-01'', ''2024-05-01'', ''2024-05-02'']\<rparr>]
     = Inr ((2024, 5, 1), [''a'', ''a''])
   \<and> organize_event
        [\<lparr>email = ''a'',
           availableDates = [''2024-05-01'', ''2024-05-01'', ''2024-05-01'', ''2024-05-02'']\<rparr>,
         \<lparr>email = ''b'', availableDates = [''2024-05-03'', ''2024-05-04'']\<rparr>,
         \<lparr>email = ''c'', availableDates = [''2024-05-03'', ''2024-05-04'']\<rparr>]
     = Inr ((2024, 5, 1), [''a'', ''a'', ''a''])"
  by (simp add: event_defs get_valid_dates_twice get_valid_dates_thrice get_valid_dates_may)

text \<open>
  C5. For available dates that parse to pairwise distinct dates \<open>D\<close> (a set of dates),
  \<^verbatim>\<open>get_valid_dates\<close> returns, and its result contains a date exactly when the date and
  the day after it are both in \<open>D\<close>; no date or one date gives the empty result.
\<close>

theorem get_valid_dates_iff:
  assumes "parse_dates available_dates = Inr D" and "distinct D"
  shows "\<exists>valid_dates. get_valid_dates available_dates = Inr valid_dates
     \<and> (\<forall>d. d \<in> set valid_dates \<longleftrightarrow>
              d \<in> set D \<and> (\<exists>next_date. add_one_day d = Inr next_date \<and> next_date \<in> set D))
     \<and> (length D \<le> 1 \<longrightarrow> valid_dates = [])"
proof -
  from assms obtain out where out: "get_valid_dates available_dates = Inr out"
    using get_valid_dates_returns by blast
  have "length D \<le> 1 \<Longrightarrow> butlast (sort D) = []"
    by (cases D) (simp_all add: butlast_conv_take)
  then have "length D \<le> 1 \<longrightarrow> out = []"
    using get_valid_dates_filter [OF assms(1) out] by simp
  with out get_valid_dates_set [OF assms(1) out] show ?thesis by blast
qed

theorem get_valid_dates_iff_witness:
  "parse_dates [''2024-06-02'', ''2024-06-01'', ''2024-06-03'']
     = Inr [(2024, 6, 2), (2024, 6, 1), (2024, 6, 3)]
   \<and> distinct [(2024, 6, 2), (2024, 6, 1), (2024, 6, 3) :: date]
   \<and> (\<exists>valid_dates.
        get_valid_dates [''2024-06-02'', ''2024-06-01'', ''2024-06-03''] = Inr valid_dates
        \<and> (\<forall>d. d \<in> set valid_dates \<longleftrightarrow>
              d \<in> set [(2024, 6, 2), (2024, 6, 1), (2024, 6, 3)]
              \<and> (\<exists>next_date. add_one_day d = Inr next_date
                    \<and> next_date \<in> set [(2024, 6, 2), (2024, 6, 1), (2024, 6, 3)])))
   \<and> parse_dates [''2024-05-01''] = Inr [(2024, 5, 1)]
   \<and> length [(2024, 5, 1) :: date] \<le> 1
   \<and> get_valid_dates [''2024-05-01''] = Inr []"
proof -
  have p1: "parse_dates [''2024-06-02'', ''2024-06-01'', ''2024-06-03'']
              = Inr [(2024, 6, 2), (2024, 6, 1), (2024, 6, 3)]"
    by (simp add: strptime_june)
  have d1: "distinct [(2024, 6, 2), (2024, 6, 1), (2024, 6, 3) :: date]" by simp
  have p2: "parse_dates [''2024-05-01''] = Inr [(2024, 5, 1)]"
    by (simp add: strptime_may)
  have d2: "distinct [(2024, 5, 1) :: date]" by simp
  from get_valid_dates_iff [OF p2 d2] have "get_valid_dates [''2024-05-01''] = Inr []"
    by auto
  with p1 d1 p2 get_valid_dates_iff [OF p1 d1] show ?thesis
    by (simp del: split_paired_Ex split_paired_All)
qed

text \<open>
  C6, as stated, fails in what the error says: for 2024-02-30 the \<^verbatim>\<open>ValueError\<close> is
  the one of the date constructor, which names no input, and for 2024-01-011 it quotes
  only the unconverted \<^verbatim>\<open>1\<close>.
\<close>

theorem malformed_date_not_identified:
  "get_valid_dates [''2024-02-30''] = Inl ValueError_out_of_range
   \<and> get_valid_dates [''2024-01-011''] = Inl (ValueError_unconverted ''1'')"
  by (simp add: get_valid_dates_def strptime_failures)

text \<open>
  C6, amended. If an attendee of the group has an available date that \<^verbatim>\<open>strptime\<close>
  rejects, then \<^verbatim>\<open>get_valid_dates\<close> on that attendee raises the \<^verbatim>\<open>ValueError\<close> of one
  of the attendee's rejected strings, from the parsing of line 39, before the scan for
  windows starts; when that string does not match the format at all (as 2024-13-40), the
  error carries the string itself. \<^verbatim>\<open>organize_event\<close> on the group then raises an
  error that \<^verbatim>\<open>get_valid_dates\<close> raised for an attendee of the group.
\<close>

theorem malformed_date_raises:
  assumes a: "a \<in> set invitees" and s: "s \<in> set (availableDates a)"
    and bad: "strptime s = Inl err"
  shows "(\<exists>s'\<in>set (availableDates a). \<exists>e. strptime s' = Inl e \<and> is_ValueError e
            \<and> parse_dates (availableDates a) = Inl e
            \<and> get_valid_dates (availableDates a) = Inl e
            \<and> (\<forall>t. e = ValueError_no_match t \<longrightarrow> t = s'))
         \<and> (\<exists>b\<in>set invitees. \<exists>e'. get_valid_dates (availableDates b) = Inl e'
            \<and> organize_event invitees = Inl e')"
proof
  from parse_dates_error [OF s bad] obtain s' e where
    s': "s' \<in> set (availableDates a)" "strptime s' = Inl e"
    "parse_dates (availableDates a) = Inl e" by blast
  have gvd: "get_valid_dates (availableDates a) = Inl e"
    using s'(3) by (rule get_valid_dates_parse_error)
  have "\<forall>t. e = ValueError_no_match t \<longrightarrow> t = s'"
    using s'(2) strptime_no_match by blast
  with s' gvd strptime_error [OF s'(2)]
  show "\<exists>s'\<in>set (availableDates a). \<exists>e. strptime s' = Inl e \<and> is_ValueError e
            \<and> parse_dates (availableDates a) = Inl e
            \<and> get_valid_dates (availableDates a) = Inl e
            \<and> (\<forall>t. e = ValueError_no_match t \<longrightarrow> t = s')" by blast
  from aggregate_error [OF a gvd, of "[]"] obtain b e' where
    b: "b \<in> set invitees" "get_valid_dates (availableDates b) = Inl e'"
    "aggregate [] invitees = Inl e'" by blast
  from b(3) have "organize_event invitees = Inl e'" by (simp add: organize_event_def)
  with b show "\<exists>b\<in>set invitees. \<exists>e'. get_valid_dates (availableDates b) = Inl e'
            \<and> organize_event invitees = Inl e'" by blast
qed

theorem malformed_date_raises_witness:
  "\<lparr>email = ''b'', availableDates = [''2024-05-01'', ''2024-13-40'']\<rparr>
     \<in> set [\<lparr>email = ''a'', availableDates = [''2024-05-01'', ''2024-05-02'']\<rparr>,
             \<lparr>email = ''b'', availableDates = [''2024-05-01'', ''2024-13-40'']\<rparr>]
   \<and> ''2024-13-40'' \<in> set [''2024-05-01'', ''2024-13-40'']
   \<and> strptime ''2024-13-40'' = Inl (ValueError_no_match ''2024-13-40'')
   \<and> get_valid_dates [''2024-05-01'', ''2024-13-40''] = Inl (ValueError_no_match ''2024-13-40'')
   \<and> organize_event
        [\<lparr>email = ''a'', availableDates = [''2024-05-01'', ''2024-05-02'']\<rparr>,
         \<lparr>email = ''b'', availableDates = [''2024-05-01'', ''2024-13-40'']\<rparr>]
      = Inl (ValueError_no_match ''2024-13-40'')"
proof -
  let ?a = "\<lparr>email = ''a'', availableDates = [''2024-05-01'', ''2024-05-02'']\<rparr>"
  let ?b = "\<lparr>email = ''b'', availableDates = [''2024-05-01'', ''2024-13-40'']\<rparr>"
  have a: "?b \<in> set [?a, ?b]" by simp
  have s: "''2024-13-40'' \<in> set (availableDates ?b)" by simp
  note bad = strptime_failures(1)
  have g: "get_valid_dates [''2024-05-01'', ''2024-13-40'']
             = Inl (ValueError_no_match ''2024-13-40'')"
    by (simp add: get_valid_dates_def strptime_may bad)
  have e: "organize_event [?a, ?b] = Inl (ValueError_no_match ''2024-13-40'')"
    by (simp add: organize_event_def get_valid_dates_may g)
  from malformed_date_raises [OF a s bad] a bad g e show ?thesis by simp
qed

text \<open>
  C7. If \<^verbatim>\<open>organize_event\<close> returns a start date for a group, some attendee of the
  group has two available dates of which one parses to the start date and the other to
  the day after it.
\<close>

theorem organize_event_start_supported:
  assumes "organize_event invitees = Inr (start_date, emails)"
  shows "\<exists>a\<in>set invitees. \<exists>s1\<in>set (availableDates a). \<exists>s2\<in>set (availableDates a).
           \<exists>next_date. strptime s1 = Inr start_date \<and> add_one_day start_date = Inr next_date
             \<and> strptime s2 = Inr next_date"
proof -
  from organize_event_key [OF assms] obtain a vd where
    a: "a \<in> set invitees" and vd: "get_valid_dates (availableDates a) = Inr vd"
    and mem: "start_date \<in> set vd" by blast
  from vd obtain ds where ds: "parse_dates (availableDates a) = Inr ds"
    using get_valid_dates_parsed by blast
  from mem get_valid_dates_set [OF ds vd] obtain nd where
    nd: "start_date \<in> set ds" "add_one_day start_date = Inr nd" "nd \<in> set ds" by blast
  from parse_dates_source [OF ds nd(1)] obtain s1 where
    s1: "s1 \<in> set (availableDates a)" "strptime s1 = Inr start_date" by blast
  from parse_dates_source [OF ds nd(3)] obtain s2 where
    s2: "s2 \<in> set (availableDates a)" "strptime s2 = Inr nd" by blast
  from a s1 s2 nd(2) show ?thesis by blast
qed

theorem organize_event_start_supported_witness:
  "organize_event
     [\<lparr>email = ''a'', availableDates = [''2024-06-01'', ''2024-06-02'']\<rparr>,
      \<lparr>email = ''b'', availableDates = [''2024-06-02'', ''2024-06-03'']\<rparr>,
      \<lparr>email = ''c'', availableDates = [''2024-06-01'', ''2024-06-02'', ''2024-06-03'']\<rparr>]
     = Inr ((2024, 6, 1), [''a'', ''c''])
   \<and> (\<exists>a\<in>set [\<lparr>email = ''a'', availableDates = [''2024-06-01'', ''2024-06-02'']\<rparr>,
                \<lparr>email = ''b'', availableDates = [''2024-06-02'', ''2024-06-03'']\<rparr>,
                \<lparr>email = ''c'',
                  availableDates = [''2024-06-01'', ''2024-06-02'', ''2024-06-03'']\<rparr>].
        \<exists>s1\<in>set (availableDates a). \<exists>s2\<in>set (availableDates a).
          \<exists>next_date. strptime s1 = Inr (2024, 6, 1)
            \<and> add_one_day (2024, 6, 1) = Inr next_date \<and> strptime s2 = Inr next_date)"
proof -
  have h: "organize_event
     [\<lparr>email = ''a'', availableDates = [''2024-06-01'', ''2024-06-02'']\<rparr>,
      \<lparr>email = ''b'', availableDates = [''2024-06-02'', ''2024-06-03'']\<rparr>,
      \<lparr>email = ''c'', availableDates = [''2024-06-01'', ''2024-06-02'', ''2024-06-03'']\<rparr>]
     = Inr ((2024, 6, 1), [''a'', ''c''])"
    by (simp add: event_defs get_valid_dates_june)
  from h organize_event_start_supported [OF h] show ?thesis by (rule conjI)
qed

text \<open>
  C8. In every record that \<^verbatim>\<open>construct\<close> builds, \<^verbatim>\<open>attendeeCount\<close> is the length of
  the list \<^verbatim>\<open>attendees\<close> of the same record.
\<close>

theorem construct_attendeeCount:
  "attendeeCount (construct event country) = length (attendees (construct event country))"
  by (simp add: construct_def)

text \<open>
  C9. Whenever \<^verbatim>\<open>get_valid_dates\<close> returns, the window starts it returns are in ascending
  calendar order (the order of Python's \<^verbatim>\<open>datetime\<close>, year before month before day).
\<close>

theorem get_valid_dates_sorted:
  assumes "get_valid_dates available_dates = Inr valid_dates"
  shows "sorted valid_dates"
proof -
  from assms obtain ds where ds: "parse_dates available_dates = Inr ds"
    using get_valid_dates_parsed by blast
  have "sorted (butlast (sort ds))"
    by (cases "sort ds = []") (simp_all add: sorted_butlast)
  then show ?thesis
    unfolding get_valid_dates_filter [OF ds assms] by (simp add: sorted_wrt_filter)
qed

theorem get_valid_dates_sorted_witness:
  "get_valid_dates [''2024-06-02'', ''2024-06-01'', ''2024-06-03'']
     = Inr [(2024, 6, 1), (2024, 6, 2)]
   \<and> sorted [(2024, 6, 1), (2024, 6, 2) :: date]"
  using get_valid_dates_june(4) get_valid_dates_sorted [OF get_valid_dates_june(4)]
  by (rule conjI)




end
